theory Spec2Isabelle
  imports Complex_Main "HOL-Library.Word"
begin

section \<open>JavaScript numbers and typed arrays\<close>

text \<open>
  A JavaScript number is modelled as a real or as \<open>NaN\<close>. The arithmetic of the program
  is read over the reals: rounding of IEEE doubles is not modelled. The two infinities
  are left out: the divisors of the audio update are 255 and a cutoff that is at least 4,
  and the one division by a value that can be zero, in the pointer handler, is modelled
  with an explicit case for it.
\<close>

datatype jsnum = Num real | NaN

text \<open>
  A \<open>Uint8Array\<close> is a list of bytes. Reading at an index beyond the length gives
  \<open>undefined\<close> in JavaScript, here \<open>None\<close>.
\<close>

type_synonym uint8array = "8 word list"

definition read_at :: "uint8array \<Rightarrow> nat \<Rightarrow> 8 word option" where
  "read_at arr i = (if i < length arr then Some (arr ! i) else None)"

text \<open>\<open>sum += x\<close>: adding \<open>undefined\<close> to a number gives \<open>NaN\<close>, and \<open>NaN\<close> stays.\<close>

fun js_add_elem :: "jsnum \<Rightarrow> 8 word option \<Rightarrow> jsnum" where
  "js_add_elem (Num s) (Some w) = Num (s + real (unat w))"
| "js_add_elem (Num s) None = NaN"
| "js_add_elem NaN x = NaN"

text \<open>\<open>a / d\<close> for a finite divisor \<open>d\<close> other than zero.\<close>

fun js_div :: "jsnum \<Rightarrow> real \<Rightarrow> jsnum" where
  "js_div (Num a) d = Num (a / d)"
| "js_div NaN d = NaN"

section \<open>Audio feature extraction (the audio block of \<open>animate\<close>)\<close>

text \<open>
  \<open>const cutoff = Math.max(4, Math.floor(len * 0.2))\<close>. The constant is read as the
  real 1/5.
\<close>

definition cutoff :: "nat \<Rightarrow> nat" where
  "cutoff len = max 4 (nat \<lfloor>real len * 0.2\<rfloor>)"

text \<open>\<open>for (let i = 0; i < cutoff; i++) sum += dataArray[i]\<close>\<close>

function sum_bins :: "uint8array \<Rightarrow> nat \<Rightarrow> nat \<Rightarrow> jsnum \<Rightarrow> jsnum" where
  "sum_bins arr i c s =
     (if i < c then sum_bins arr (Suc i) c (js_add_elem s (read_at arr i)) else s)"
  by pat_completeness auto
termination
  by (relation "measure (\<lambda>(arr, i, c, s). c - i)") auto

declare sum_bins.simps [simp del]

text \<open>\<open>const avg = sum / cutoff / 255\<close>, the value written to \<open>uAudio\<close>.\<close>

definition audio_update :: "uint8array \<Rightarrow> jsnum" where
  "audio_update arr =
     (let len = length arr;
          c = cutoff len;
          s = sum_bins arr 0 c (Num 0)
      in js_div (js_div s (real c)) 255)"

text \<open>A number in the unit interval; \<open>NaN\<close> is not.\<close>

fun in_unit :: "jsnum \<Rightarrow> bool" where
  "in_unit (Num v) = (0 \<le> v \<and> v \<le> 1)"
| "in_unit NaN = False"

text \<open>The arithmetic mean of the first \<open>c\<close> bins, normalised by 255.\<close>

definition bass_mean :: "uint8array \<Rightarrow> nat \<Rightarrow> real" where
  "bass_mean arr c = sum_list (map (\<lambda>w. real (unat w)) (take c arr)) / real c / 255"

section \<open>Vectors\<close>

text \<open>\<open>THREE.Vector2\<close> and the GLSL types \<open>vec2\<close>, \<open>vec3\<close>, \<open>vec4\<close>, over the reals.\<close>

datatype vec2 = Vec2 (vx: real) (vy: real)

datatype vec3 = Vec3 (v3x: real) (v3y: real) (v3z: real)

datatype vec4 = Vec4 (v4x: real) (v4y: real) (v4z: real) (v4w: real)

text \<open>\<open>v + w\<close>, \<open>v - w\<close>, \<open>v * k\<close> and \<open>v + k\<close> (the scalar is added to every component).\<close>

definition vadd :: "vec2 \<Rightarrow> vec2 \<Rightarrow> vec2" where
  "vadd v w = Vec2 (vx v + vx w) (vy v + vy w)"

definition vsub :: "vec2 \<Rightarrow> vec2 \<Rightarrow> vec2" where
  "vsub v w = Vec2 (vx v - vx w) (vy v - vy w)"

definition vscale :: "vec2 \<Rightarrow> real \<Rightarrow> vec2" where
  "vscale v k = Vec2 (vx v * k) (vy v * k)"

definition vadds :: "vec2 \<Rightarrow> real \<Rightarrow> vec2" where
  "vadds v k = Vec2 (vx v + k) (vy v + k)"

definition dot :: "vec2 \<Rightarrow> vec2 \<Rightarrow> real" where
  "dot v w = vx v * vx w + vy v * vy w"

definition length_v2 :: "vec2 \<Rightarrow> real" where
  "length_v2 v = sqrt (vx v * vx v + vy v * vy v)"

definition v3add :: "vec3 \<Rightarrow> vec3 \<Rightarrow> vec3" where
  "v3add v w = Vec3 (v3x v + v3x w) (v3y v + v3y w) (v3z v + v3z w)"

definition v3adds :: "vec3 \<Rightarrow> real \<Rightarrow> vec3" where
  "v3adds v k = Vec3 (v3x v + k) (v3y v + k) (v3z v + k)"

definition v3scale :: "vec3 \<Rightarrow> real \<Rightarrow> vec3" where
  "v3scale v k = Vec3 (v3x v * k) (v3y v * k) (v3z v * k)"

section \<open>GLSL built-in functions\<close>

text \<open>
  The built-ins are written out from their definitions in the GLSL specification:
  \<open>fract(x) = x - floor(x)\<close>, \<open>mix(a, b, t) = a * (1 - t) + b * t\<close>,
  \<open>clamp(x, lo, hi) = min(max(x, lo), hi)\<close> and
  \<open>smoothstep(e0, e1, x) = t * t * (3 - 2 * t)\<close> with \<open>t = clamp((x - e0) / (e1 - e0), 0, 1)\<close>.
  The shaders call \<open>smoothstep\<close> with \<open>e0 > e1\<close>; the formula is evaluated as it stands.
  \<open>pow(x, y)\<close> is the real power, which GLSL defines for \<open>x > 0\<close> and for \<open>x = 0\<close>, \<open>y > 0\<close>.
\<close>

definition fract :: "real \<Rightarrow> real" where
  "fract x = x - of_int \<lfloor>x\<rfloor>"

definition mix :: "real \<Rightarrow> real \<Rightarrow> real \<Rightarrow> real" where
  "mix a b t = a * (1 - t) + b * t"

definition clamp :: "real \<Rightarrow> real \<Rightarrow> real \<Rightarrow> real" where
  "clamp x lo hi = min (max x lo) hi"

definition smoothstep :: "real \<Rightarrow> real \<Rightarrow> real \<Rightarrow> real" where
  "smoothstep e0 e1 x = (let t = clamp ((x - e0) / (e1 - e0)) 0 1 in t * t * (3 - 2 * t))"

definition pow :: "real \<Rightarrow> real \<Rightarrow> real" where
  "pow x y = x powr y"

definition mix3 :: "vec3 \<Rightarrow> vec3 \<Rightarrow> real \<Rightarrow> vec3" where
  "mix3 a b t = Vec3 (mix (v3x a) (v3x b) t) (mix (v3y a) (v3y b) t) (mix (v3z a) (v3z b) t)"

definition floor_v2 :: "vec2 \<Rightarrow> vec2" where
  "floor_v2 p = Vec2 (of_int \<lfloor>vx p\<rfloor>) (of_int \<lfloor>vy p\<rfloor>)"

definition fract_v2 :: "vec2 \<Rightarrow> vec2" where
  "fract_v2 p = Vec2 (fract (vx p)) (fract (vy p))"

section \<open>The vertex shader: value noise and displacement\<close>

text \<open>
  \<open>float hash(vec2 p){ return fract(sin(dot(p, vec2(127.1,311.7))) * 43758.5453123); }\<close>
\<close>

definition hash :: "vec2 \<Rightarrow> real" where
  "hash p = fract (sin (dot p (Vec2 127.1 311.7)) * 43758.5453123)"

text \<open>\<open>vec2 u = f*f*(3.0-2.0*f)\<close>, for one component.\<close>

definition fade :: "real \<Rightarrow> real" where
  "fade f = f * f * (3 - 2 * f)"

text \<open>The value noise, the same text in both shader variants.\<close>

definition noise :: "vec2 \<Rightarrow> real" where
  "noise p =
     (let i = floor_v2 p;
          f = fract_v2 p;
          a = hash i;
          b = hash (vadd i (Vec2 1 0));
          c = hash (vadd i (Vec2 0 1));
          d = hash (vadd i (Vec2 1 1));
          u = Vec2 (fade (vx f)) (fade (vy f))
      in mix a b (vx u) + (c - a) * vy u * (1 - vx u) + (d - b) * vx u * vy u)"

text \<open>The four lattice values \<open>a\<close>, \<open>b\<close>, \<open>c\<close>, \<open>d\<close> that \<open>noise\<close> interpolates at \<open>p\<close>.\<close>

definition corners :: "vec2 \<Rightarrow> real list" where
  "corners p =
     [hash (floor_v2 p), hash (vadd (floor_v2 p) (Vec2 1 0)),
      hash (vadd (floor_v2 p) (Vec2 0 1)), hash (vadd (floor_v2 p) (Vec2 1 1))]"

text \<open>
  The uniforms of the audio-reactive variant and the attributes of one vertex. Both are
  extensible records, so that the shader functions below are defined on every state that
  has at least these fields.
\<close>

record uniforms =
  uTime :: real
  uAudio :: real
  uMouse :: vec2

record vertex =
  uv :: vec2
  position :: vec3

text \<open>
  The height \<open>h\<close> of \<open>main\<close> in the vertex shader:
  \<open>t = uTime * 0.8\<close>, \<open>warp = vec2(noise(uv * 3.0 + t), noise(uv * 3.0 - t)) * 0.3\<close>,
  \<open>m = length(uv - (uMouse*0.5 + 0.5))\<close>, \<open>mouseRip = smoothstep(0.7, 0.0, m) * 0.5\<close>,
  \<open>amp = 0.2 + uAudio * 0.9\<close> and
  \<open>h = noise(uv * 6.0 + warp + t) * amp + mouseRip * (0.25 + uAudio * 0.5)\<close>.
\<close>

definition warp_of :: "'a uniforms_scheme \<Rightarrow> 'b vertex_scheme \<Rightarrow> vec2" where
  "warp_of u v =
     (let t = uTime u * 0.8
      in vscale (Vec2 (noise (vadds (vscale (uv v) 3) t)) (noise (vadds (vscale (uv v) 3) (- t)))) 0.3)"

definition mouseRip :: "'a uniforms_scheme \<Rightarrow> 'b vertex_scheme \<Rightarrow> real" where
  "mouseRip u v =
     (let m = length_v2 (vsub (uv v) (vadds (vscale (uMouse u) 0.5) 0.5))
      in smoothstep 0.7 0 m * 0.5)"

definition amp :: "'a uniforms_scheme \<Rightarrow> real" where
  "amp u = 0.2 + uAudio u * 0.9"

definition height :: "'a uniforms_scheme \<Rightarrow> 'b vertex_scheme \<Rightarrow> real" where
  "height u v =
     (let t = uTime u * 0.8
      in noise (vadds (vadd (vscale (uv v) 6) (warp_of u v)) t) * amp u
         + mouseRip u v * (0.25 + uAudio u * 0.5))"

text \<open>
  \<open>main\<close> of the vertex shader: the varying \<open>vUv\<close> and the displaced position \<open>p\<close>
  (\<open>p.z += h\<close>, \<open>p.x += (noise(uv * 4.0 + t) - 0.5) * 0.06\<close>). The projection to clip space
  is left to the host.
\<close>

definition vertex_main :: "'a uniforms_scheme \<Rightarrow> 'b vertex_scheme \<Rightarrow> vec2 \<times> vec3" where
  "vertex_main u v =
     (let t = uTime u * 0.8;
          p = position v;
          pz = v3z p + height u v;
          px = v3x p + (noise (vadds (vscale (uv v) 4) t) - 0.5) * 0.06
      in (uv v, Vec3 px (v3y p) pz))"

section \<open>The fragment shaders\<close>

text \<open>
  \<open>main\<close> of the fragment shader of the audio-reactive variant; the result is
  \<open>gl_FragColor = vec4(col, 1.0)\<close>.
\<close>

definition fragment_main :: "'a uniforms_scheme \<Rightarrow> vec2 \<Rightarrow> vec4" where
  "fragment_main u vUv =
     (let t = uTime u * 0.2;
          vign = smoothstep 1.0 0.2 (length_v2 (vadds vUv (- 0.5)));
          deep = Vec3 0.02 0.03 0.06;
          mid = Vec3 0.18 0.15 0.4;
          bright = Vec3 0.6 0.4 1.0;
          pulse = 0.2 + uAudio u * 1.2;
          col = v3adds (mix3 deep mid (vy vUv)) (sin (t + vx vUv * 6) * 0.02 * pulse);
          col = v3add col (v3scale (v3scale bright (pow (uAudio u) 1.5)) 0.4);
          col = v3scale col vign
      in Vec4 (v3x col) (v3y col) (v3z col) 1)"

text \<open>A colour whose four channels lie in the display range [0,1].\<close>

definition in_display_range :: "vec4 \<Rightarrow> bool" where
  "in_display_range c =
     (0 \<le> v4x c \<and> v4x c \<le> 1 \<and> 0 \<le> v4y c \<and> v4y c \<le> 1 \<and>
      0 \<le> v4z c \<and> v4z c \<le> 1 \<and> 0 \<le> v4w c \<and> v4w c \<le> 1)"

section \<open>The pointer handler and the smoother\<close>

text \<open>
  \<open>onPointer\<close>: the pointer position relative to the canvas rectangle, mapped to
  \<open>(x * 2 - 1, -(y * 2 - 1))\<close> and stored in \<open>mouseRef\<close>. For a rectangle of width or height
  zero the quotient is not a finite number; that case is \<open>None\<close>.
\<close>

record pointer_event =
  clientX :: real
  clientY :: real

record dom_rect =
  rect_left :: real
  rect_top :: real
  rect_width :: real
  rect_height :: real

definition onPointer :: "pointer_event \<Rightarrow> dom_rect \<Rightarrow> vec2 option" where
  "onPointer e rect =
     (if rect_width rect = 0 \<or> rect_height rect = 0 then None
      else let x = (clientX e - rect_left rect) / rect_width rect;
               y = (clientY e - rect_top rect) / rect_height rect
           in Some (Vec2 (x * 2 - 1) (- (y * 2 - 1))))"

text \<open>
  \<open>THREE.Vector2.lerp(v, alpha)\<close>:
  \<open>this.x += (v.x - this.x) * alpha; this.y += (v.y - this.y) * alpha\<close>.
\<close>

definition lerp :: "vec2 \<Rightarrow> vec2 \<Rightarrow> real \<Rightarrow> vec2" where
  "lerp c v alpha = Vec2 (vx c + (vx v - vx c) * alpha) (vy c + (vy v - vy c) * alpha)"

text \<open>\<open>k\<close> smoothing steps of rate \<open>r\<close> towards a target \<open>p\<close> that does not move.\<close>

fun smooth_steps :: "real \<Rightarrow> vec2 \<Rightarrow> nat \<Rightarrow> vec2 \<Rightarrow> vec2" where
  "smooth_steps r p 0 c = c"
| "smooth_steps r p (Suc k) c = smooth_steps r p k (lerp c p r)"

text \<open>\<open>THREE.Vector2.distanceTo\<close>, the Euclidean distance.\<close>

definition distanceTo :: "vec2 \<Rightarrow> vec2 \<Rightarrow> real" where
  "distanceTo v w = length_v2 (vsub v w)"

text \<open>\<open>x\<close> lies between \<open>a\<close> and \<open>b\<close>, in either order.\<close>

definition between :: "real \<Rightarrow> real \<Rightarrow> real \<Rightarrow> bool" where
  "between a b x = (min a b \<le> x \<and> x \<le> max a b)"

section \<open>The host: animation frames and the DOM\<close>

text \<open>
  The part of the browser that the render loop talks to: the set of animation-frame
  callbacks that are scheduled and not yet run or cancelled, the next handle that
  \<open>requestAnimationFrame\<close> returns (handles are positive), and what the effect set up:
  the resize observer, the pointer listener, the canvas attached to the container, and
  the GPU resources. \<open>ticks\<close> counts the executions of \<open>animate\<close>.
\<close>

record host =
  pending :: "nat set"
  next_handle :: nat
  observing :: bool
  listening :: bool
  attached :: bool
  disposed :: bool
  ticks :: nat

datatype dom_error = NotFoundError

definition requestAnimationFrame :: "'a host_scheme \<Rightarrow> nat \<times> 'a host_scheme" where
  "requestAnimationFrame s =
     (next_handle s, s\<lparr>pending := insert (next_handle s) (pending s),
                        next_handle := Suc (next_handle s)\<rparr>)"

text \<open>Cancelling a handle that is not scheduled does nothing.\<close>

definition cancelAnimationFrame :: "nat \<Rightarrow> 'a host_scheme \<Rightarrow> 'a host_scheme" where
  "cancelAnimationFrame h s = s\<lparr>pending := pending s - {h}\<rparr>"

text \<open>\<open>container.removeChild(canvas)\<close> throws when the canvas is not a child.\<close>

definition removeChild :: "'a host_scheme \<Rightarrow> dom_error + 'a host_scheme" where
  "removeChild s = (if attached s then Inr (s\<lparr>attached := False\<rparr>) else Inl NotFoundError)"

section \<open>The audio-reactive application\<close>

text \<open>
  The React state (\<open>volume\<close>, \<open>isPlaying\<close>), the refs, which live as long as the component
  (\<open>mouseRef\<close>, \<open>analyserRef\<close>, \<open>dataArrayRef\<close>, \<open>audioElRef\<close>, given by the volume of the audio
  element when there is one), and what one run of the effect creates: the three uniform
  values, the clock and \<open>rafId\<close> (\<open>null\<close> is \<open>None\<close>). The cube is left out.
\<close>

record app = host +
  volume :: real
  isPlaying :: bool
  mouseRef :: vec2
  analyserRef :: bool
  dataArrayRef :: "uint8array option"
  audioElRef :: "real option"
  uTime_value :: real
  uAudio_value :: jsnum
  uMouse_value :: vec2
  clock_start :: "real option"
  rafId :: "nat option"

text \<open>
  The data array, as both places that create the analyser build it:
  \<open>analyser.fftSize = 512\<close>, \<open>bufferLength = analyser.frequencyBinCount\<close>, which is half
  the FFT size, and \<open>dataArrayRef.current = new Uint8Array(bufferLength)\<close>, filled with zeros.
\<close>

definition fftSize :: nat where
  "fftSize = 512"

definition frequencyBinCount :: nat where
  "frequencyBinCount = fftSize div 2"

definition new_dataArray :: uint8array where
  "new_dataArray = replicate frequencyBinCount 0"

text \<open>
  \<open>getByteFrequencyData(array)\<close> copies the analyser's current bins \<open>freq\<close> into the array;
  the array keeps its length.
\<close>

definition getByteFrequencyData :: "uint8array \<Rightarrow> uint8array \<Rightarrow> uint8array" where
  "getByteFrequencyData freq arr = take (length arr) freq @ drop (length freq) arr"

text \<open>
  \<open>animate\<close>, run at host time \<open>now\<close> while the analyser holds \<open>freq\<close>: schedule the next
  frame and keep its handle in \<open>rafId\<close>, read the clock (which starts at its first
  reading), step the pointer uniform towards \<open>mouseRef\<close> at rate 0.08 and, when there is an
  analyser and a data array, write the audio uniform.
\<close>

definition animate :: "real \<Rightarrow> uint8array \<Rightarrow> app \<Rightarrow> app" where
  "animate now freq s =
     (let (h, s) = requestAnimationFrame s;
          s = s\<lparr>rafId := Some h\<rparr>;
          start = (case clock_start s of None \<Rightarrow> now | Some t0 \<Rightarrow> t0);
          s = s\<lparr>clock_start := Some start, uTime_value := now - start,
                uMouse_value := lerp (uMouse_value s) (mouseRef s) 0.08\<rparr>;
          s = (case dataArrayRef s of
                 None \<Rightarrow> s
               | Some arr \<Rightarrow>
                   if analyserRef s
                   then let arr = getByteFrequencyData freq arr
                        in s\<lparr>dataArrayRef := Some arr, uAudio_value := audio_update arr\<rparr>
                   else s)
      in s\<lparr>ticks := Suc (ticks s)\<rparr>)"

text \<open>A run of \<open>animate\<close> calls, one for each pair of a host time and analyser bins.\<close>

fun animate_frames :: "(real \<times> uint8array) list \<Rightarrow> app \<Rightarrow> app" where
  "animate_frames [] s = s"
| "animate_frames ((now, freq) # fs) s = animate_frames fs (animate now freq s)"

text \<open>The host runs the callback scheduled under handle \<open>h\<close>, if it is still scheduled.\<close>

definition frame :: "nat \<Rightarrow> real \<Rightarrow> uint8array \<Rightarrow> app \<Rightarrow> app" where
  "frame h now freq s =
     (if h \<in> pending s then animate now freq (s\<lparr>pending := pending s - {h}\<rparr>) else s)"

text \<open>
  The body of the effect: fresh uniforms (all zero), a new clock, the observer and the
  listener, \<open>let rafId = null\<close>, and the first call of \<open>animate\<close>.
\<close>

definition effect :: "real \<Rightarrow> uint8array \<Rightarrow> app \<Rightarrow> app" where
  "effect now freq s =
     animate now freq
       (s\<lparr>attached := True, disposed := False, observing := True, listening := True,
          uTime_value := 0, uAudio_value := Num 0, uMouse_value := Vec2 0 0,
          clock_start := None, rafId := None\<rparr>)"

text \<open>
  The cleanup of the effect. \<open>cancelAnimationFrame(null)\<close> cancels nothing. The removal of
  the canvas stands in \<open>try { ... } catch (e) {}\<close>, so its failure is swallowed.
\<close>

definition cleanup :: "app \<Rightarrow> dom_error + app" where
  "cleanup s =
     (let s = s\<lparr>observing := False, listening := False\<rparr>;
          s = (case rafId s of None \<Rightarrow> s | Some h \<Rightarrow> cancelAnimationFrame h s);
          s = s\<lparr>disposed := True\<rparr>
      in case removeChild s of Inl e \<Rightarrow> Inr s | Inr s' \<Rightarrow> Inr s')"

text \<open>
  \<open>handleVolume(v)\<close> for a finite number \<open>v\<close> (the range input delivers no other), followed
  by what React does with \<open>setVolume(vol)\<close>: when the new value differs from the state, the
  component renders again and the effect, whose dependency list is \<open>[volume]\<close>, is cleaned
  up and run again.
\<close>

definition handleVolume :: "real \<Rightarrow> real \<Rightarrow> uint8array \<Rightarrow> app \<Rightarrow> dom_error + app" where
  "handleVolume v now freq s =
     (let vol = max 0 (min 1 v);
          s1 = s\<lparr>audioElRef := (case audioElRef s of None \<Rightarrow> None | Some a \<Rightarrow> Some vol)\<rparr>
      in if vol = volume s then Inr s1
         else case cleanup (s1\<lparr>volume := vol\<rparr>) of
                Inl e \<Rightarrow> Inl e
              | Inr s2 \<Rightarrow> Inr (effect now freq s2))"

text \<open>The state before the component is mounted, and the first run of the effect.\<close>

definition app_init :: app where
  "app_init =
     \<lparr>pending = {}, next_handle = 1, observing = False, listening = False, attached = False,
      disposed = False, ticks = 0,
      volume = 0.7, isPlaying = False, mouseRef = Vec2 0 0, analyserRef = False,
      dataArrayRef = None, audioElRef = None,
      uTime_value = 0, uAudio_value = Num 0, uMouse_value = Vec2 0 0,
      clock_start = None, rafId = None\<rparr>"

text \<open>What can happen to a mounted application.\<close>

datatype host_event =
    Frame nat real uint8array
  | PointerMove vec2
  | VolumeChange real real uint8array
  | Cleanup

fun step :: "host_event \<Rightarrow> app \<Rightarrow> dom_error + app" where
  "step (Frame h now freq) s = Inr (frame h now freq s)"
| "step (PointerMove v) s = Inr (if listening s then s\<lparr>mouseRef := v\<rparr> else s)"
| "step (VolumeChange v now freq) s = handleVolume v now freq s"
| "step Cleanup s = cleanup s"

fun run :: "host_event list \<Rightarrow> app \<Rightarrow> dom_error + app" where
  "run [] s = Inr s"
| "run (e # es) s = (case step e s of Inl err \<Rightarrow> Inl err | Inr s' \<Rightarrow> run es s')"

section \<open>The variant without audio\<close>

text \<open>
  Of the variant without audio only the pointer handler is modelled. It stores the target
  in \<open>mouse\<close> and itself steps the pointer uniform towards it, at rate 0.2. The effect
  that would install the handler does not get that far: it calls \<open>useRef\<close> and reads
  \<open>container\<close>, which the file never declares, before it builds the scene, so neither the
  render loop nor the cleanup of this variant ever runs, and the fragment shader of the
  variant does not type-check (\<open>palette\<close> multiplies a \<open>vec3\<close> by a \<open>vec4\<close>). The loop and the
  colour are therefore those of the audio-reactive variant alone.
\<close>

record plain_app = host +
  mouse :: vec2
  plain_uMouse :: vec2
  raf :: nat

definition onPointerMove :: "vec2 \<Rightarrow> plain_app \<Rightarrow> plain_app" where
  "onPointerMove v s = (let s = s\<lparr>mouse := v\<rparr> in s\<lparr>plain_uMouse := lerp (plain_uMouse s) (mouse s) 0.2\<rparr>)"

section \<open>Predicates used in the statements\<close>

text \<open>Both components in [-1,1]; the pointer inside the canvas rectangle.\<close>

definition in_square :: "vec2 \<Rightarrow> bool" where
  "in_square v = (- 1 \<le> vx v \<and> vx v \<le> 1 \<and> - 1 \<le> vy v \<and> vy v \<le> 1)"

definition inside :: "pointer_event \<Rightarrow> dom_rect \<Rightarrow> bool" where
  "inside e rect =
     (rect_left rect \<le> clientX e \<and> clientX e \<le> rect_left rect + rect_width rect \<and>
      rect_top rect \<le> clientY e \<and> clientY e \<le> rect_top rect + rect_height rect)"

text \<open>
  The loop invariant of the audio-reactive variant: no animation frame is scheduled
  other than the one whose handle \<open>rafId\<close> holds.
\<close>

definition loop_inv :: "app \<Rightarrow> bool" where
  "loop_inv s = (pending s \<subseteq> set_option (rafId s))"

text \<open>
  The events that can follow the unmounting of the component: everything except a change
  of the volume, which needs the slider that the component renders.
\<close>

fun is_VolumeChange :: "host_event \<Rightarrow> bool" where
  "is_VolumeChange (VolumeChange v now freq) = True"
| "is_VolumeChange e = False"

text \<open>A mounted application at time 5: the effect ran at time 0 and one frame followed.\<close>

definition app_running :: app where
  "app_running = frame 1 5 [] (effect 0 [] app_init)"

section \<open>Properties of the audio feature extraction\<close>

lemma cutoff_div5: "cutoff len = max 4 (len div 5)"
proof -
  have "\<lfloor>real len * 0.2\<rfloor> = \<lfloor>real len / real 5\<rfloor>" by simp
  also have "\<dots> = int (len div 5)" by (simp only: floor_divide_of_nat_eq)
  finally show ?thesis by (simp add: cutoff_def)
qed

lemma cutoff_ge4: "4 \<le> cutoff len"
  by (simp add: cutoff_def)

lemma cutoff_le_length: "4 \<le> len \<Longrightarrow> cutoff len \<le> len"
  by (simp add: cutoff_div5)

lemma sum_bins_in_range:
  "c \<le> length arr \<Longrightarrow> i \<le> c \<Longrightarrow>
   sum_bins arr i c (Num s) = Num (s + (\<Sum>k = i..<c. real (unat (arr ! k))))"
proof (induction arr i c "Num s" arbitrary: s rule: sum_bins.induct)
  case (1 arr i c)
  show ?case
  proof (cases "i < c")
    case True
    then have "read_at arr i = Some (arr ! i)"
      using "1.prems" by (simp add: read_at_def)
    then have "sum_bins arr i c (Num s) = sum_bins arr (Suc i) c (Num (s + real (unat (arr ! i))))"
      using True by (subst sum_bins.simps) simp
    also have "\<dots> = Num (s + real (unat (arr ! i)) + (\<Sum>k = Suc i..<c. real (unat (arr ! k))))"
      using "1.hyps" [of "s + real (unat (arr ! i))"] True "1.prems" \<open>read_at arr i = Some (arr ! i)\<close>
      by simp
    finally show ?thesis
      using True by (simp add: sum.atLeast_Suc_lessThan add.assoc)
  next
    case False
    then show ?thesis
      using "1.prems" by (subst sum_bins.simps) simp
  qed
qed

lemma sum_bins_NaN: "sum_bins arr i c NaN = NaN"
proof (induction arr i c NaN rule: sum_bins.induct)
  case (1 arr i c)
  then show ?case by (subst sum_bins.simps) simp
qed

lemma sum_bins_out_of_range:
  "length arr < c \<Longrightarrow> i \<le> length arr \<Longrightarrow> sum_bins arr i c s = NaN"
proof (induction arr i c s rule: sum_bins.induct)
  case (1 arr i c s)
  show ?case
  proof (cases "i < length arr")
    case True
    then show ?thesis
      using "1.prems" "1.IH" by (subst sum_bins.simps) simp
  next
    case False
    then have "i = length arr" using "1.prems" by simp
    then have "js_add_elem s (read_at arr i) = NaN"
      by (cases s) (simp_all add: read_at_def)
    then show ?thesis
      using "1.prems" by (subst sum_bins.simps) (simp add: sum_bins_NaN)
  qed
qed

lemma sum_take_nth:
  "c \<le> length arr \<Longrightarrow>
   (\<Sum>k = 0..<c. real (unat (arr ! k))) = sum_list (map (\<lambda>w. real (unat w)) (take c arr))"
proof -
  assume c: "c \<le> length arr"
  have "sum_list (map (\<lambda>w. real (unat w)) (take c arr)) =
        (\<Sum>k = 0..<length (take c arr). map (\<lambda>w. real (unat w)) (take c arr) ! k)"
    by (simp add: sum_list_sum_nth)
  also have "\<dots> = (\<Sum>k = 0..<c. real (unat (arr ! k)))"
    using c by (intro sum.cong) simp_all
  finally show ?thesis by simp
qed

lemma audio_update_in_range:
  assumes "4 \<le> length arr"
  shows "audio_update arr = Num (bass_mean arr (cutoff (length arr)))"
proof -
  have c: "cutoff (length arr) \<le> length arr"
    using assms by (rule cutoff_le_length)
  have "sum_bins arr 0 (cutoff (length arr)) (Num 0) =
        Num (sum_list (map (\<lambda>w. real (unat w)) (take (cutoff (length arr)) arr)))"
    using sum_bins_in_range [OF c, of 0 0] sum_take_nth [OF c] by simp
  then show ?thesis
    by (simp add: audio_update_def bass_mean_def Let_def)
qed

lemma byte_sum_bounds:
  "0 \<le> sum_list (map (\<lambda>w. real (unat w)) (xs :: uint8array)) \<and>
   sum_list (map (\<lambda>w. real (unat w)) xs) \<le> 255 * real (length xs)"
proof (induction xs)
  case Nil
  then show ?case by simp
next
  case (Cons w ws)
  have "unat w < 2 ^ 8" using unsigned_less [of w] by simp
  then have "unat w \<le> 255" by simp
  then have hi: "real (unat w) \<le> 255" by linarith
  have lo: "0 \<le> real (unat w)" by (rule of_nat_0_le_iff)
  from Cons lo hi show ?case
    by (auto simp: algebra_simps intro: add_nonneg_nonneg)
qed

lemma bass_mean_unit:
  assumes "0 < c" "c \<le> length arr"
  shows "0 \<le> bass_mean arr c \<and> bass_mean arr c \<le> 1"
proof -
  let ?s = "sum_list (map (\<lambda>w. real (unat w)) (take c arr))"
  have len: "length (take c arr) = c" using assms by simp
  have "0 \<le> ?s" and "?s \<le> 255 * real c"
    using byte_sum_bounds [of "take c arr"] len by simp_all
  then show ?thesis
    using assms by (simp add: bass_mean_def divide_le_eq field_simps)
qed

lemma bass_mean_const:
  assumes "0 < c" "c \<le> length arr" "set arr \<subseteq> {w}"
  shows "bass_mean arr c = real (unat w) / 255"
proof -
  have "take c arr = replicate c w"
  proof (rule replicate_eqI)
    show "length (take c arr) = c" using assms by simp
    fix y assume "y \<in> set (take c arr)"
    then have "y \<in> set arr" by (rule in_set_takeD)
    then show "y = w" using assms by auto
  qed
  then have "sum_list (map (\<lambda>w. real (unat w)) (take c arr)) = real c * real (unat w)"
    by (simp add: sum_list_replicate)
  then show ?thesis
    using assms by (simp add: bass_mean_def)
qed

lemma getByteFrequencyData_length: "length (getByteFrequencyData freq arr) = length arr"
  by (simp add: getByteFrequencyData_def)

lemma new_dataArray_length: "length new_dataArray = 256"
  by (simp add: new_dataArray_def frequencyBinCount_def fftSize_def)

text \<open>
  C1. For every frequency snapshot the update takes \<open>cutoff = max(4, floor(N * 0.2))\<close>,
  which is \<open>max(4, N div 5)\<close>, returns the arithmetic mean of the first \<open>cutoff\<close> bins divided
  by 255, the result lies in [0,1], an all-zero snapshot gives 0 and an all-255 snapshot
  gives 1. The snapshots are the contents of the data array, which is created with 256
  bins and keeps its length when the analyser fills it; the statement is proved for every
  snapshot of at least 4 bins.
\<close>

theorem audio_update_spec:
  assumes "4 \<le> length arr"
  shows "cutoff (length arr) = max 4 (length arr div 5)
       \<and> audio_update arr = Num (bass_mean arr (cutoff (length arr)))
       \<and> in_unit (audio_update arr)
       \<and> (set arr \<subseteq> {0} \<longrightarrow> audio_update arr = Num 0)
       \<and> (set arr \<subseteq> {255} \<longrightarrow> audio_update arr = Num 1)
       \<and> length new_dataArray = 256
       \<and> length (getByteFrequencyData freq arr) = length arr"
proof -
  let ?c = "cutoff (length arr)"
  have pos: "0 < ?c" using cutoff_ge4 [of "length arr"] by simp
  have le: "?c \<le> length arr" using assms by (rule cutoff_le_length)
  have upd: "audio_update arr = Num (bass_mean arr ?c)"
    using assms by (rule audio_update_in_range)
  have unit: "in_unit (audio_update arr)"
    using bass_mean_unit [OF pos le] upd by simp
  have zero: "audio_update arr = Num 0" if "set arr \<subseteq> {0}"
    using bass_mean_const [OF pos le that] upd by simp
  have full: "audio_update arr = Num 1" if "set arr \<subseteq> {255}"
    using bass_mean_const [OF pos le that] upd by simp
  show ?thesis
    using cutoff_div5 upd unit zero full new_dataArray_length
      getByteFrequencyData_length [of freq arr]
    by blast
qed

text \<open>
  The data array right after its creation, and after the analyser has written 255 into
  each of its 256 bins.
\<close>

theorem audio_update_spec_witness:
  "4 \<le> length new_dataArray
   \<and> audio_update new_dataArray = Num 0
   \<and> 4 \<le> length (getByteFrequencyData (replicate 256 255) new_dataArray)
   \<and> cutoff (length (getByteFrequencyData (replicate 256 255) new_dataArray)) = 51
   \<and> audio_update (getByteFrequencyData (replicate 256 255) new_dataArray) = Num 1
   \<and> in_unit (audio_update (getByteFrequencyData (replicate 256 255) new_dataArray))"
proof -
  let ?full = "getByteFrequencyData (replicate 256 255) new_dataArray"
  have len0: "4 \<le> length new_dataArray"
    by (simp add: new_dataArray_length)
  have zeros: "set new_dataArray \<subseteq> {0}"
    by (simp add: new_dataArray_def frequencyBinCount_def fftSize_def)
  have len: "4 \<le> length ?full"
    by (simp add: getByteFrequencyData_length new_dataArray_length)
  have full: "set ?full \<subseteq> {255}"
    by (simp add: getByteFrequencyData_def new_dataArray_length)
  have "audio_update new_dataArray = Num 0"
    using audio_update_spec [OF len0] zeros by blast
  moreover have "audio_update ?full = Num 1" and "in_unit (audio_update ?full)"
    using audio_update_spec [OF len] full by blast+
  moreover have "cutoff (length ?full) = 51"
    by (simp add: getByteFrequencyData_length new_dataArray_length cutoff_div5)
  ultimately show ?thesis using len0 len by blast
qed

text \<open>
  C2 (as amended). On an empty snapshot the update raises no error: the divisor is the
  cutoff, which is at least 4 for every length, so nothing is divided by zero, and the
  value produced is \<open>NaN\<close>.
\<close>

theorem audio_update_empty:
  "0 < cutoff len \<and> cutoff 0 = 4 \<and> audio_update [] = NaN"
proof -
  have "sum_bins [] 0 (cutoff (length ([] :: uint8array))) (Num 0) = NaN"
    by (rule sum_bins_out_of_range) (simp_all add: cutoff_div5)
  then show ?thesis
    using cutoff_ge4 [of len] by (simp add: audio_update_def Let_def cutoff_div5)
qed

text \<open>The claim that the empty snapshot never yields \<open>NaN\<close> fails.\<close>

theorem audio_update_empty_counterexample:
  "audio_update [] = NaN"
proof -
  have "sum_bins [] 0 (cutoff (length ([] :: uint8array))) (Num 0) = NaN"
    by (rule sum_bins_out_of_range) (simp_all add: cutoff_div5)
  then show ?thesis
    by (simp add: audio_update_def Let_def)
qed

section \<open>Properties of the value noise\<close>

lemma fract_range: "0 \<le> fract x \<and> fract x < 1"
  unfolding fract_def by linarith

lemma fade_range:
  assumes "0 \<le> f" "f \<le> 1"
  shows "0 \<le> fade f \<and> fade f \<le> 1"
proof -
  have "0 \<le> f * f * (3 - 2 * f)"
    using assms by (intro mult_nonneg_nonneg) simp_all
  moreover have "1 - f * f * (3 - 2 * f) = (1 - f) * (1 - f) * (1 + 2 * f)"
    by (simp add: algebra_simps)
  moreover have "0 \<le> (1 - f) * (1 - f) * (1 + 2 * f)"
    using assms by (intro mult_nonneg_nonneg) simp_all
  ultimately show ?thesis
    unfolding fade_def by linarith
qed

lemma mix_bounds:
  assumes "0 \<le> t" "t \<le> 1" "lo \<le> a" "a \<le> hi" "lo \<le> b" "b \<le> hi"
  shows "lo \<le> mix a b t \<and> mix a b t \<le> hi"
proof -
  have up: "(1 - t) * a + t * b \<le> hi"
    using assms by (intro convex_bound_le) simp_all
  have "(1 - t) * (- a) + t * (- b) \<le> - lo"
    using assms by (intro convex_bound_le) simp_all
  then have low: "lo \<le> (1 - t) * a + t * b"
    by (simp add: algebra_simps)
  show ?thesis
    using up low by (simp add: mix_def mult.commute)
qed

lemma noise_bilinear:
  "noise p =
     mix (mix (hash (floor_v2 p)) (hash (vadd (floor_v2 p) (Vec2 1 0))) (fade (fract (vx p))))
         (mix (hash (vadd (floor_v2 p) (Vec2 0 1))) (hash (vadd (floor_v2 p) (Vec2 1 1)))
              (fade (fract (vx p))))
         (fade (fract (vy p)))"
  by (simp add: noise_def Let_def mix_def fract_v2_def algebra_simps)

lemma noise_between:
  assumes "\<And>h. h \<in> set (corners p) \<Longrightarrow> lo \<le> h \<and> h \<le> hi"
  shows "lo \<le> noise p \<and> noise p \<le> hi"
proof -
  have ux: "0 \<le> fade (fract (vx p)) \<and> fade (fract (vx p)) \<le> 1"
    using fract_range [of "vx p"] by (intro fade_range) simp_all
  have uy: "0 \<le> fade (fract (vy p)) \<and> fade (fract (vy p)) \<le> 1"
    using fract_range [of "vy p"] by (intro fade_range) simp_all
  have ab: "lo \<le> mix (hash (floor_v2 p)) (hash (vadd (floor_v2 p) (Vec2 1 0))) (fade (fract (vx p)))
          \<and> mix (hash (floor_v2 p)) (hash (vadd (floor_v2 p) (Vec2 1 0))) (fade (fract (vx p))) \<le> hi"
    using ux assms by (intro mix_bounds) (simp_all add: corners_def)
  have cd: "lo \<le> mix (hash (vadd (floor_v2 p) (Vec2 0 1))) (hash (vadd (floor_v2 p) (Vec2 1 1))) (fade (fract (vx p)))
          \<and> mix (hash (vadd (floor_v2 p) (Vec2 0 1))) (hash (vadd (floor_v2 p) (Vec2 1 1))) (fade (fract (vx p))) \<le> hi"
    using ux assms by (intro mix_bounds) (simp_all add: corners_def)
  show ?thesis
    unfolding noise_bilinear using uy ab cd by (intro mix_bounds) simp_all
qed

lemma hash_range: "0 \<le> hash p \<and> hash p < 1"
  unfolding hash_def by (rule fract_range)

lemma noise_range: "0 \<le> noise p \<and> noise p \<le> 1"
proof (rule noise_between)
  fix h assume "h \<in> set (corners p)"
  then show "0 \<le> h \<and> h \<le> 1"
    using hash_range less_imp_le by (auto simp: corners_def)
qed

text \<open>
  C10. For every point \<open>p\<close> of the plane the value noise lies in [0,1]: the hash of every
  lattice point lies in [0,1), the smoothstep weight \<open>f*f*(3-2*f)\<close> of a fractional part lies
  in [0,1], and the interpolation stays between the least and the greatest of the four
  corner values.
\<close>

theorem noise_in_unit_interval:
  "0 \<le> hash p \<and> hash p < 1
   \<and> 0 \<le> fade (fract f) \<and> fade (fract f) \<le> 1
   \<and> Min (set (corners p)) \<le> noise p \<and> noise p \<le> Max (set (corners p))
   \<and> 0 \<le> noise p \<and> noise p \<le> 1"
proof -
  have u: "0 \<le> fade (fract f) \<and> fade (fract f) \<le> 1"
    using fract_range [of f] by (intro fade_range) simp_all
  have "Min (set (corners p)) \<le> noise p \<and> noise p \<le> Max (set (corners p))"
    by (rule noise_between) simp
  then show ?thesis
    using hash_range [of p] u noise_range [of p] by blast
qed

section \<open>Properties of the displacement height\<close>

lemma clamp_unit: "0 \<le> clamp x 0 1 \<and> clamp x 0 1 \<le> 1"
  by (simp add: clamp_def)

lemma smoothstep_range: "0 \<le> smoothstep e0 e1 x \<and> smoothstep e0 e1 x \<le> 1"
proof -
  have "smoothstep e0 e1 x = fade (clamp ((x - e0) / (e1 - e0)) 0 1)"
    by (simp add: smoothstep_def fade_def Let_def)
  then show ?thesis
    using clamp_unit [of "(x - e0) / (e1 - e0)"] fade_range by simp
qed

lemma mouseRip_range: "0 \<le> mouseRip u v \<and> mouseRip u v \<le> 0.5"
  using smoothstep_range [of "0.7" 0 "length_v2 (vsub (uv v) (vadds (vscale (uMouse u) 0.5) 0.5))"]
  by (simp add: mouseRip_def Let_def)

lemma height_bounds:
  assumes "0 \<le> uAudio u" "uAudio u \<le> 1"
  shows "0 \<le> height u v \<and> height u v \<le> 1.475"
proof -
  define n where "n = noise (vadds (vadd (vscale (uv v) 6) (warp_of u v)) (uTime u * 0.8))"
  define r where "r = mouseRip u v"
  define a where "a = uAudio u"
  have h: "height u v = n * (0.2 + a * 0.9) + r * (0.25 + a * 0.5)"
    by (simp add: height_def Let_def amp_def n_def r_def a_def)
  have n: "0 \<le> n" "n \<le> 1" using noise_range by (simp_all add: n_def)
  have r: "0 \<le> r" "r \<le> 0.5" using mouseRip_range [of u v] by (simp_all add: r_def)
  have a: "0 \<le> a" "a \<le> 1" using assms by (simp_all add: a_def)
  have "n * (0.2 + a * 0.9) \<le> 1 * 1.1"
    using n a by (intro mult_mono) simp_all
  moreover have "r * (0.25 + a * 0.5) \<le> 0.5 * 0.75"
    using r a by (intro mult_mono) simp_all
  moreover have "0 \<le> n * (0.2 + a * 0.9)" and "0 \<le> r * (0.25 + a * 0.5)"
    using n r a by (simp_all add: add_nonneg_nonneg)
  ultimately show ?thesis
    unfolding h by simp
qed

text \<open>
  C4. For every surface coordinate, time and pointer value and every audio intensity in
  [0,1], the height is at most \<open>baseAmp + ampGain + rippleMax\<close>: the amplitude is at most
  0.2 + 0.9, the ripple term at most 0.5 * (0.25 + 0.5), and so the height at most 1.475.
  The bound on the noise is proved above, and the height is never negative.
\<close>

theorem height_bounded:
  assumes "0 \<le> uAudio u" "uAudio u \<le> 1"
  shows "amp u \<le> 0.2 + 0.9
       \<and> mouseRip u v * (0.25 + uAudio u * 0.5) \<le> 0.5 * (0.25 + 0.5)
       \<and> height u v \<le> 0.2 + 0.9 + 0.5 * (0.25 + 0.5)
       \<and> 0 \<le> height u v \<and> height u v \<le> 1.475"
proof -
  have "amp u \<le> 0.2 + 0.9"
    using assms by (simp add: amp_def)
  moreover have "mouseRip u v * (0.25 + uAudio u * 0.5) \<le> 0.5 * 0.75"
    using mouseRip_range [of u v] assms by (intro mult_mono) simp_all
  moreover have "0 \<le> height u v \<and> height u v \<le> 1.475"
    using assms by (rule height_bounds)
  ultimately show ?thesis by simp
qed

theorem height_bounded_witness:
  "(0::real) \<le> 1 \<and> (1::real) \<le> 1
   \<and> height \<lparr>uTime = 2, uAudio = 1, uMouse = Vec2 0 0\<rparr>
             \<lparr>uv = Vec2 0.5 0.5, position = Vec3 0 0 0\<rparr> \<le> 1.475"
  using height_bounded [of "\<lparr>uTime = 2, uAudio = 1, uMouse = Vec2 0 0\<rparr>"
                           "\<lparr>uv = Vec2 0.5 0.5, position = Vec3 0 0 0\<rparr>"]
  by simp

section \<open>Properties of the fragment colour\<close>

lemma pow_three_halves:
  assumes "0 \<le> a" "a \<le> 1"
  shows "a * a \<le> pow a 1.5 \<and> pow a 1.5 \<le> 1"
proof (cases "a = 0")
  case True
  then show ?thesis by (simp add: pow_def)
next
  case False
  then have pos: "0 < a" using assms by simp
  have "a powr 2 \<le> a powr 1.5"
    using pos assms by (intro powr_mono') simp_all
  moreover have "a powr 2 = a * a"
    using pos by (simp add: powr_numeral power2_eq_square)
  moreover have "a powr 1.5 \<le> 1"
    using assms by (intro powr_le1) simp_all
  ultimately show ?thesis by (simp add: pow_def)
qed

lemma channel_bounds:
  fixes s a g b k :: real
  assumes s: "- 1 \<le> s" "s \<le> 1"
    and a: "0 \<le> a" "a \<le> 1"
    and g: "a * a \<le> g" "g \<le> 1"
    and b: "0.02 \<le> b" "b \<le> 0.4"
    and k: "0.4 \<le> k" "k \<le> 1"
  shows "0 \<le> b + s * 0.02 * (0.2 + a * 1.2) + k * g * 0.4
       \<and> b + s * 0.02 * (0.2 + a * 1.2) + k * g * 0.4 \<le> 1"
proof -
  define q where "q = s * (0.2 + a * 1.2)"
  define w where "w = k * g"
  have q_lo: "- (0.2 + a * 1.2) \<le> q"
    using mult_right_mono [of "- 1" s "0.2 + a * 1.2"] s a by (simp add: q_def)
  have q_hi: "q \<le> 0.2 + a * 1.2"
    using mult_right_mono [of s 1 "0.2 + a * 1.2"] s a by (simp add: q_def)
  have w_lo: "0.4 * (a * a) \<le> w"
    unfolding w_def using k g a by (intro mult_mono) simp_all
  have w_hi: "w \<le> 1"
    unfolding w_def using k g a
    by (intro mult_le_one) (auto intro: order_trans [of 0 "a * a" g])
  have sq: "0 \<le> (a - 0.075) * (a - 0.075)" by simp
  then have sq': "0 \<le> a * a - 0.15 * a + 0.005625" by (simp add: algebra_simps)
  have eq: "b + s * 0.02 * (0.2 + a * 1.2) + k * g * 0.4 = b + 0.02 * q + 0.4 * w"
    by (simp add: q_def w_def)
  have lo: "0 \<le> b + 0.02 * q + 0.4 * w"
    using q_lo w_lo sq' b by (simp add: field_simps)
  have hi: "b + 0.02 * q + 0.4 * w \<le> 1"
    using q_hi w_hi a b by (simp add: field_simps)
  show ?thesis
    unfolding eq using lo hi by simp
qed

lemma vignette_scale:
  assumes "0 \<le> c" "c \<le> 1" "0 \<le> g" "g \<le> 1"
  shows "0 \<le> c * g \<and> c * g \<le> (1::real)"
  using assms by (simp add: mult_le_one)

lemma fragment_main_range:
  assumes "0 \<le> vy vUv" "vy vUv \<le> 1" "0 \<le> uAudio u" "uAudio u \<le> 1"
  shows "in_display_range (fragment_main u vUv)"
proof -
  define s where "s = sin (uTime u * 0.2 + vx vUv * 6)"
  define g where "g = pow (uAudio u) 1.5"
  define vign where "vign = smoothstep 1.0 0.2 (length_v2 (vadds vUv (- 0.5)))"
  define a where "a = uAudio u"
  define cr where "cr = mix 0.02 0.18 (vy vUv) + s * 0.02 * (0.2 + a * 1.2) + 0.6 * g * 0.4"
  define cg where "cg = mix 0.03 0.15 (vy vUv) + s * 0.02 * (0.2 + a * 1.2) + 0.4 * g * 0.4"
  define cb where "cb = mix 0.06 0.4 (vy vUv) + s * 0.02 * (0.2 + a * 1.2) + 1 * g * 0.4"
  have out: "fragment_main u vUv = Vec4 (cr * vign) (cg * vign) (cb * vign) 1"
    by (simp add: fragment_main_def Let_def mix3_def v3adds_def v3add_def v3scale_def
        cr_def cg_def cb_def s_def g_def vign_def a_def)
  have s: "- 1 \<le> s" "s \<le> 1" by (simp_all add: s_def)
  have a: "0 \<le> a" "a \<le> 1" using assms by (simp_all add: a_def)
  have g: "a * a \<le> g" "g \<le> 1"
    using pow_three_halves [OF a] by (simp_all add: g_def a_def)
  have v: "0 \<le> vign" "vign \<le> 1"
    using smoothstep_range by (simp_all add: vign_def)
  have mr: "0.02 \<le> mix 0.02 0.18 (vy vUv)" "mix 0.02 0.18 (vy vUv) \<le> 0.4"
    using mix_bounds [of "vy vUv" "0.02" "0.02" "0.18" "0.18"] assms by simp_all
  have mg: "0.02 \<le> mix 0.03 0.15 (vy vUv)" "mix 0.03 0.15 (vy vUv) \<le> 0.4"
    using mix_bounds [of "vy vUv" "0.03" "0.03" "0.15" "0.15"] assms by simp_all
  have mb: "0.02 \<le> mix 0.06 0.4 (vy vUv)" "mix 0.06 0.4 (vy vUv) \<le> 0.4"
    using mix_bounds [of "vy vUv" "0.06" "0.06" "0.4" "0.4"] assms by simp_all
  have r: "0 \<le> cr \<and> cr \<le> 1"
    unfolding cr_def using s a g mr by (intro channel_bounds) simp_all
  have gr: "0 \<le> cg \<and> cg \<le> 1"
    unfolding cg_def using s a g mg by (intro channel_bounds) simp_all
  have bl: "0 \<le> cb \<and> cb \<le> 1"
    unfolding cb_def using s a g mb by (intro channel_bounds) simp_all
  show ?thesis
    unfolding out in_display_range_def
    using vignette_scale [of cr vign] vignette_scale [of cg vign] vignette_scale [of cb vign]
      r gr bl v by simp
qed

text \<open>
  C8. For every coordinate with \<open>vUv.y\<close> in [0,1], every time and every audio intensity in
  [0,1], every channel of the colour that the fragment shader writes lies in the display
  range [0,1], and alpha is 1. The shader calls no \<open>clamp\<close>: its constants keep each channel
  between 0 and 0.828 before the vignette, which is a factor in [0,1].
\<close>

theorem fragment_colour_in_range:
  assumes "0 \<le> vy vUv" "vy vUv \<le> 1" "0 \<le> uAudio u" "uAudio u \<le> 1"
  shows "in_display_range (fragment_main u vUv) \<and> v4w (fragment_main u vUv) = 1"
proof -
  have "v4w (fragment_main u vUv) = 1"
    by (simp add: fragment_main_def Let_def)
  then show ?thesis
    using fragment_main_range [OF assms] by simp
qed

theorem fragment_colour_in_range_witness:
  "0 \<le> vy (Vec2 0.5 0.25) \<and> vy (Vec2 0.5 0.25) \<le> 1 \<and> (0::real) \<le> 1 \<and> (1::real) \<le> 1
   \<and> in_display_range (fragment_main \<lparr>uTime = 3, uAudio = 1, uMouse = Vec2 0 0\<rparr> (Vec2 0.5 0.25))"
  using fragment_colour_in_range [of "Vec2 0.5 0.25" "\<lparr>uTime = 3, uAudio = 1, uMouse = Vec2 0 0\<rparr>"]
  by simp

section \<open>Properties of the pointer handler\<close>

lemma onPointer_value:
  assumes "0 < rect_width rect" "0 < rect_height rect"
  shows "onPointer e rect =
         Some (Vec2 ((clientX e - rect_left rect) / rect_width rect * 2 - 1)
                    (- ((clientY e - rect_top rect) / rect_height rect * 2 - 1)))"
  using assms by (simp add: onPointer_def Let_def)

lemma unit_ratio:
  fixes a w :: real
  assumes "0 < w"
  shows "(- 1 \<le> a / w * 2 - 1 \<and> a / w * 2 - 1 \<le> 1) = (0 \<le> a \<and> a \<le> w)"
proof -
  define q where "q = a / w"
  have "(0 \<le> q) = (0 \<le> a)" using assms by (simp add: q_def zero_le_divide_iff)
  moreover have "(q \<le> 1) = (a \<le> w)" using assms by (simp add: q_def divide_le_eq)
  moreover have "(- 1 \<le> q * 2 - 1 \<and> q * 2 - 1 \<le> 1) = (0 \<le> q \<and> q \<le> 1)" by auto
  ultimately show ?thesis unfolding q_def by simp
qed

text \<open>
  C7 (as amended). For a canvas rectangle of positive width and height, the pointer
  handler sets the target to \<open>(x * 2 - 1, -(y * 2 - 1))\<close>, where \<open>x\<close> and \<open>y\<close> are the position of
  the pointer relative to the rectangle. Nothing is clamped: the target lies in [-1,1]^2
  exactly when the pointer is inside the rectangle.
\<close>

theorem onPointer_target:
  assumes "0 < rect_width rect" "0 < rect_height rect"
  shows "onPointer e rect =
           Some (Vec2 ((clientX e - rect_left rect) / rect_width rect * 2 - 1)
                      (- ((clientY e - rect_top rect) / rect_height rect * 2 - 1)))
       \<and> (case onPointer e rect of None \<Rightarrow> False | Some v \<Rightarrow> in_square v = inside e rect)"
proof -
  have x: "(- 1 \<le> (clientX e - rect_left rect) / rect_width rect * 2 - 1
            \<and> (clientX e - rect_left rect) / rect_width rect * 2 - 1 \<le> 1)
         = (0 \<le> clientX e - rect_left rect \<and> clientX e - rect_left rect \<le> rect_width rect)"
    using assms(1) by (rule unit_ratio)
  have y: "(- 1 \<le> (clientY e - rect_top rect) / rect_height rect * 2 - 1
            \<and> (clientY e - rect_top rect) / rect_height rect * 2 - 1 \<le> 1)
         = (0 \<le> clientY e - rect_top rect \<and> clientY e - rect_top rect \<le> rect_height rect)"
    using assms(2) by (rule unit_ratio)
  have "in_square (Vec2 ((clientX e - rect_left rect) / rect_width rect * 2 - 1)
                      (- ((clientY e - rect_top rect) / rect_height rect * 2 - 1)))
        = inside e rect"
    using x y unfolding in_square_def inside_def by (simp add: algebra_simps) argo
  then show ?thesis
    using onPointer_value [OF assms] by simp
qed

theorem onPointer_target_witness:
  "0 < rect_width \<lparr>rect_left = 10, rect_top = 20, rect_width = 200, rect_height = 100\<rparr>
   \<and> 0 < rect_height \<lparr>rect_left = 10, rect_top = 20, rect_width = 200, rect_height = 100\<rparr>
   \<and> onPointer \<lparr>clientX = 160, clientY = 45\<rparr>
        \<lparr>rect_left = 10, rect_top = 20, rect_width = 200, rect_height = 100\<rparr>
      = Some (Vec2 0.5 0.5)"
  using onPointer_target [of "\<lparr>rect_left = 10, rect_top = 20, rect_width = 200, rect_height = 100\<rparr>"
      "\<lparr>clientX = 160, clientY = 45\<rparr>"]
  by simp

text \<open>
  A pointer position to the right of the rectangle gives a target outside [-1,1]^2.
\<close>

theorem onPointer_unclamped_counterexample:
  "onPointer \<lparr>clientX = 300, clientY = 50\<rparr>
     \<lparr>rect_left = 0, rect_top = 0, rect_width = 100, rect_height = 100\<rparr> = Some (Vec2 5 0)
   \<and> \<not> in_square (Vec2 5 0)"
  by (simp add: onPointer_def in_square_def Let_def)

section \<open>Properties of the pointer smoother\<close>

lemma lerp_gap:
  "vx p - vx (lerp c p r) = (vx p - vx c) * (1 - r) \<and>
   vy p - vy (lerp c p r) = (vy p - vy c) * (1 - r)"
  by (simp add: lerp_def algebra_simps)

lemma smooth_steps_gap:
  "vx p - vx (smooth_steps r p k c) = (vx p - vx c) * (1 - r) ^ k \<and>
   vy p - vy (smooth_steps r p k c) = (vy p - vy c) * (1 - r) ^ k"
proof (induction k arbitrary: c)
  case 0
  show ?case by simp
next
  case (Suc k)
  show ?case
    using Suc.IH [of "lerp c p r"] lerp_gap [of p c r]
    by (simp add: mult.assoc)
qed

lemma decay_factor:
  fixes r :: real
  assumes "0 < r" "r \<le> 1"
  shows "0 \<le> (1 - r) ^ k \<and> (1 - r) ^ k \<le> 1"
  using assms by (simp add: power_le_one)

lemma between_convex:
  fixes a b q :: real
  assumes "0 \<le> q" "q \<le> 1"
  shows "between a b (b - (b - a) * q)"
proof (cases "a \<le> b")
  case True
  then have "0 \<le> (b - a) * q" and "(b - a) * q \<le> (b - a) * 1"
    using assms mult_left_mono [of q 1 "b - a"] by simp_all
  then show ?thesis
    using True by (simp add: between_def)
next
  case False
  then have "0 \<le> (a - b) * q" and "(a - b) * q \<le> (a - b) * 1"
    using assms mult_left_mono [of q 1 "a - b"] by simp_all
  then show ?thesis
    using False by (simp add: between_def algebra_simps)
qed

lemma length_scaled:
  fixes q :: real
  assumes "0 \<le> q"
  shows "sqrt (a * q * (a * q) + b * q * (b * q)) = sqrt (a * a + b * b) * q"
proof -
  have "a * q * (a * q) + b * q * (b * q) = (a * a + b * b) * q\<^sup>2"
    by (simp add: algebra_simps power2_eq_square)
  then show ?thesis
    using assms by (simp add: real_sqrt_mult)
qed

lemma animate_pointer:
  "uMouse_value (animate now freq s) = lerp (uMouse_value s) (mouseRef s) 0.08"
  by (simp add: animate_def requestAnimationFrame_def Let_def split: option.split)

lemma animate_mouseRef: "mouseRef (animate now freq s) = mouseRef s"
  by (simp add: animate_def requestAnimationFrame_def Let_def split: option.split)

lemma animate_frames_smooth:
  "uMouse_value (animate_frames fs s) = smooth_steps 0.08 (mouseRef s) (length fs) (uMouse_value s)
   \<and> mouseRef (animate_frames fs s) = mouseRef s"
proof (induction fs arbitrary: s)
  case Nil
  show ?case by simp
next
  case (Cons f fs)
  obtain now freq where f: "f = (now, freq)" by (cases f)
  show ?case
    using Cons.IH [of "animate now freq s"]
    by (simp add: f animate_pointer animate_mouseRef)
qed

text \<open>
  C3. For a fixed rate \<open>r\<close> in (0,1] each step sets \<open>current = lerp(current, target, r)\<close>. For a
  target \<open>p\<close> that does not move and any start \<open>c0\<close>, after \<open>k\<close> steps the distance to the target
  is \<open>|p - c0| * (1 - r)^k\<close>, for the Euclidean distance and for each component, and
  \<open>current\<close> lies between \<open>c0\<close> and \<open>p\<close> in each component, so it never passes the target.
  The frames of \<open>animate\<close> are such steps with \<open>r = 0.08\<close> and the target \<open>mouseRef\<close>; the
  pointer handler of the variant without audio takes one such step with \<open>r = 0.2\<close>.
  The arithmetic is that of the reals.
\<close>

theorem smoother_converges:
  assumes "0 < r" "r \<le> 1"
  shows "distanceTo p (smooth_steps r p k c0) = distanceTo p c0 * (1 - r) ^ k
       \<and> \<bar>vx p - vx (smooth_steps r p k c0)\<bar> = \<bar>vx p - vx c0\<bar> * (1 - r) ^ k
       \<and> \<bar>vy p - vy (smooth_steps r p k c0)\<bar> = \<bar>vy p - vy c0\<bar> * (1 - r) ^ k
       \<and> between (vx c0) (vx p) (vx (smooth_steps r p k c0))
       \<and> between (vy c0) (vy p) (vy (smooth_steps r p k c0))
       \<and> smooth_steps r p (Suc k) c0 = lerp (smooth_steps r p k c0) p r
       \<and> uMouse_value (animate_frames fs s)
           = smooth_steps 0.08 (mouseRef s) (length fs) (uMouse_value s)
       \<and> plain_uMouse (onPointerMove v t) = smooth_steps 0.2 v 1 (plain_uMouse t)"
proof -
  define q where "q = (1 - r) ^ k"
  have q: "0 \<le> q" "q \<le> 1"
    using decay_factor [OF assms, of k] by (simp_all add: q_def)
  have gx: "vx p - vx (smooth_steps r p k c0) = (vx p - vx c0) * q"
    and gy: "vy p - vy (smooth_steps r p k c0) = (vy p - vy c0) * q"
    using smooth_steps_gap [of p r k c0] by (simp_all add: q_def)
  have d: "distanceTo p (smooth_steps r p k c0) = distanceTo p c0 * q"
    unfolding distanceTo_def length_v2_def vsub_def
    using length_scaled [OF q(1), of "vx p - vx c0" "vy p - vy c0"]
    by (simp add: gx gy)
  have ax: "\<bar>vx p - vx (smooth_steps r p k c0)\<bar> = \<bar>vx p - vx c0\<bar> * q"
    using q by (simp add: gx abs_mult)
  have ay: "\<bar>vy p - vy (smooth_steps r p k c0)\<bar> = \<bar>vy p - vy c0\<bar> * q"
    using q by (simp add: gy abs_mult)
  have "vx (smooth_steps r p k c0) = vx p - (vx p - vx c0) * q"
    using gx by simp
  then have bx: "between (vx c0) (vx p) (vx (smooth_steps r p k c0))"
    using between_convex [OF q, of "vx c0" "vx p"] by simp
  have "vy (smooth_steps r p k c0) = vy p - (vy p - vy c0) * q"
    using gy by simp
  then have "between (vy c0) (vy p) (vy (smooth_steps r p k c0))"
    using between_convex [OF q, of "vy c0" "vy p"] by simp
  moreover have "smooth_steps r p (Suc k) c0 = lerp (smooth_steps r p k c0) p r"
    by (induction k arbitrary: c0) simp_all
  moreover have "plain_uMouse (onPointerMove v t) = smooth_steps 0.2 v 1 (plain_uMouse t)"
    by (simp add: onPointerMove_def Let_def)
  ultimately show ?thesis
    using d ax ay bx animate_frames_smooth [of fs s] unfolding q_def by simp
qed

theorem smoother_converges_witness:
  "(0::real) < 0.2 \<and> (0.2::real) \<le> 1
   \<and> smooth_steps 0.2 (Vec2 0.5 (- 0.5)) 1 (Vec2 0 0) = Vec2 0.1 (- 0.1)
   \<and> \<bar>vx (Vec2 0.5 (- 0.5)) - vx (smooth_steps 0.2 (Vec2 0.5 (- 0.5)) 2 (Vec2 0 0))\<bar> = 0.32
   \<and> between 0 0.5 (vx (smooth_steps 0.2 (Vec2 0.5 (- 0.5)) 2 (Vec2 0 0)))"
  using smoother_converges [of "0.2" "Vec2 0.5 (- 0.5)" 2 "Vec2 0 0"]
  by (simp add: lerp_def power2_eq_square)

section \<open>Properties of the volume handler\<close>

lemma cleanup_result:
  "cleanup s =
     Inr (s\<lparr>observing := False, listening := False, disposed := True, attached := False,
            pending := pending s - set_option (rafId s)\<rparr>)"
  by (cases "rafId s")
     (simp_all add: cleanup_def cancelAnimationFrame_def removeChild_def Let_def)

lemma animate_fields:
  "volume (animate now freq s) = volume s"
  "isPlaying (animate now freq s) = isPlaying s"
  "analyserRef (animate now freq s) = analyserRef s"
  "audioElRef (animate now freq s) = audioElRef s"
  "(dataArrayRef (animate now freq s) = None) = (dataArrayRef s = None)"
  "ticks (animate now freq s) = Suc (ticks s)"
  "rafId (animate now freq s) = Some (next_handle s)"
  "pending (animate now freq s) = insert (next_handle s) (pending s)"
  "next_handle (animate now freq s) = Suc (next_handle s)"
  "uTime_value (animate now freq s) = now - (case clock_start s of None \<Rightarrow> now | Some t0 \<Rightarrow> t0)"
  "clock_start (animate now freq s) = Some (case clock_start s of None \<Rightarrow> now | Some t0 \<Rightarrow> t0)"
  by (simp_all add: animate_def requestAnimationFrame_def Let_def split: option.split)

lemma handleVolume_same:
  assumes "max 0 (min 1 v) = volume s"
  shows "handleVolume v now freq s = Inr (s\<lparr>audioElRef := map_option (\<lambda>a. volume s) (audioElRef s)\<rparr>)"
  using assms by (cases "audioElRef s") (simp_all add: handleVolume_def Let_def)

lemma handleVolume_changed:
  assumes "max 0 (min 1 v) \<noteq> volume s"
  shows "handleVolume v now freq s =
         Inr (effect now freq
               (s\<lparr>audioElRef := map_option (\<lambda>a. max 0 (min 1 v)) (audioElRef s),
                  volume := max 0 (min 1 v),
                  observing := False, listening := False, disposed := True, attached := False,
                  pending := pending s - set_option (rafId s)\<rparr>))"
  using assms by (cases "audioElRef s") (simp_all add: handleVolume_def Let_def cleanup_result)

text \<open>
  C9 (as amended). Setting the volume to any finite value stores the value clamped to
  [0,1], in the state and in the audio element when there is one. The audio session is not
  restarted: \<open>isPlaying\<close>, the analyser, the presence of the data array and \<open>mouseRef\<close> are
  as before. When the clamped value equals the stored one, nothing else changes. When it
  differs, the effect is cleaned up and run again: the pending frame is cancelled, the
  uniforms and the clock start afresh, and \<open>animate\<close> runs once and schedules a new frame.
\<close>

theorem handleVolume_gain:
  "(case handleVolume v now freq s of
      Inl e \<Rightarrow> False
    | Inr s' \<Rightarrow>
        volume s' = max 0 (min 1 v) \<and> 0 \<le> volume s' \<and> volume s' \<le> 1
      \<and> audioElRef s' = map_option (\<lambda>a. volume s') (audioElRef s)
      \<and> isPlaying s' = isPlaying s \<and> analyserRef s' = analyserRef s
      \<and> (dataArrayRef s' = None) = (dataArrayRef s = None)
      \<and> mouseRef s' = mouseRef s
      \<and> (max 0 (min 1 v) = volume s \<longrightarrow>
           s' = s\<lparr>audioElRef := map_option (\<lambda>a. volume s) (audioElRef s)\<rparr>)
      \<and> (max 0 (min 1 v) \<noteq> volume s \<longrightarrow>
           uTime_value s' = 0 \<and> clock_start s' = Some now
         \<and> uMouse_value s' = lerp (Vec2 0 0) (mouseRef s) 0.08
         \<and> ticks s' = Suc (ticks s)
         \<and> rafId s' = Some (next_handle s)
         \<and> pending s' = insert (next_handle s) (pending s - set_option (rafId s))))"
proof (cases "max 0 (min 1 v) = volume s")
  case True
  have "0 \<le> max 0 (min 1 v)" "max 0 (min 1 v) \<le> 1" by simp_all
  then show ?thesis
    using True by (simp add: handleVolume_same [OF True])
next
  case False
  show ?thesis
    using False
    by (simp add: handleVolume_changed [OF False] effect_def animate_fields animate_pointer
        animate_mouseRef)
qed

lemma app_running_value:
  "app_running =
     \<lparr>pending = {2}, next_handle = 3, observing = True, listening = True, attached = True,
      disposed = False, ticks = 2,
      volume = 0.7, isPlaying = False, mouseRef = Vec2 0 0, analyserRef = False,
      dataArrayRef = None, audioElRef = None,
      uTime_value = 5, uAudio_value = Num 0, uMouse_value = Vec2 0 0,
      clock_start = Some 0, rafId = Some 2\<rparr>"
  by (simp add: app_running_def app_init_def effect_def frame_def animate_def
      requestAnimationFrame_def lerp_def Let_def)

theorem handleVolume_gain_witness:
  "max 0 (min 1 0.7) = volume app_running
   \<and> handleVolume 0.7 7 [] app_running = Inr app_running
   \<and> max 0 (min 1 1.5) \<noteq> volume app_running
   \<and> volume (projr (handleVolume 1.5 7 [] app_running)) = 1
   \<and> uTime_value (projr (handleVolume 1.5 7 [] app_running)) = 0"
  using handleVolume_gain [where v = "0.7" and now = 7 and freq = "[]" and s = app_running]
    handleVolume_gain [where v = "1.5" and now = 7 and freq = "[]" and s = app_running]
  by (auto simp: app_running_value split: sum.splits)

text \<open>
  A change of the volume from 0.7 to 0.5 at time 7 restarts the render session of a
  running application: the time uniform falls from 5 to 0 and a new frame handle replaces
  the old one.
\<close>

theorem handleVolume_restart_counterexample:
  "handleVolume 0.5 7 [] app_running \<noteq> Inr (app_running\<lparr>volume := 0.5\<rparr>)
   \<and> uTime_value app_running = 5
   \<and> uTime_value (projr (handleVolume 0.5 7 [] app_running)) = 0
   \<and> rafId app_running = Some 2
   \<and> rafId (projr (handleVolume 0.5 7 [] app_running)) = Some 3
   \<and> ticks app_running = 2
   \<and> ticks (projr (handleVolume 0.5 7 [] app_running)) = 3"
proof -
  have ch: "max 0 (min 1 0.5) \<noteq> volume app_running"
    by (simp add: app_running_value)
  show ?thesis
    unfolding handleVolume_changed [OF ch]
    by (simp add: app_running_value effect_def animate_def requestAnimationFrame_def
        lerp_def Let_def)
qed

section \<open>Teardown of the render loop\<close>

text \<open>
  The cleanup never faults, every event keeps the loop invariant, and a state without a
  pending frame and without the pointer listener executes no tick.
\<close>

lemma cleanup_no_fault: "\<exists>s'. cleanup s = Inr s'"
  by (simp add: cleanup_result)

lemma frame_inv: "loop_inv s \<Longrightarrow> loop_inv (frame h now freq s)"
  by (cases "rafId s") (auto simp: loop_inv_def frame_def animate_fields)

lemma effect_inv: "pending s = {} \<Longrightarrow> loop_inv (effect now freq s)"
  by (simp add: loop_inv_def effect_def animate_fields)

lemma cleanup_pending: "loop_inv s \<Longrightarrow> cleanup s = Inr s' \<Longrightarrow> pending s' = {}"
  by (auto simp: cleanup_result loop_inv_def)

lemma step_total: "\<exists>s'. step e s = Inr s'"
proof (cases e)
  case (VolumeChange v now freq)
  then show ?thesis
    using handleVolume_same [of v s now freq] handleVolume_changed [of v s now freq]
    by (cases "max 0 (min 1 v) = volume s") simp_all
qed (simp_all add: cleanup_result)

lemma step_inv:
  assumes "loop_inv s" "step e s = Inr s'"
  shows "loop_inv s'"
proof (cases e)
  case (Frame h now freq)
  then show ?thesis using assms frame_inv by auto
next
  case (PointerMove v)
  then show ?thesis using assms by (auto simp: loop_inv_def split: if_splits)
next
  case (VolumeChange v now freq)
  show ?thesis
  proof (cases "max 0 (min 1 v) = volume s")
    case True
    then show ?thesis
      using assms VolumeChange by (auto simp: handleVolume_same loop_inv_def)
  next
    case False
    have "pending s - set_option (rafId s) = {}"
      using assms(1) by (auto simp: loop_inv_def)
    then show ?thesis
      using assms VolumeChange False
      by (auto simp: handleVolume_changed intro!: effect_inv)
  qed
next
  case Cleanup
  then show ?thesis
    using assms by (auto simp: cleanup_result loop_inv_def)
qed

lemma run_inv: "loop_inv s \<Longrightarrow> run es s = Inr s' \<Longrightarrow> loop_inv s'"
proof (induction es arbitrary: s)
  case Nil
  then show ?case by simp
next
  case (Cons e es)
  obtain s1 where s1: "step e s = Inr s1" using step_total by blast
  then show ?case
    using Cons step_inv [OF Cons.prems(1) s1] by simp
qed

lemma run_total: "\<exists>s'. run es s = Inr s'"
proof (induction es arbitrary: s)
  case Nil
  show ?case by simp
next
  case (Cons e es)
  obtain s1 where "step e s = Inr s1" using step_total by blast
  then show ?case using Cons [of s1] by simp
qed

lemma quiet_step:
  assumes "pending s = {}" "\<not> listening s" "\<forall>v now freq. e \<noteq> VolumeChange v now freq"
  shows "\<exists>s'. step e s = Inr s' \<and> pending s' = {} \<and> \<not> listening s' \<and> ticks s' = ticks s"
  using assms by (cases e) (auto simp: frame_def cleanup_result)

lemma quiet_run:
  assumes "pending s = {}" "\<not> listening s"
    "\<forall>v now freq. VolumeChange v now freq \<notin> set es"
  shows "\<exists>s'. run es s = Inr s' \<and> pending s' = {} \<and> ticks s' = ticks s"
  using assms
proof (induction es arbitrary: s)
  case Nil
  then show ?case by simp
next
  case (Cons e es)
  have "\<forall>v now freq. e \<noteq> VolumeChange v now freq"
    using Cons.prems(3) by auto
  then obtain s1 where s1: "step e s = Inr s1" "pending s1 = {}" "\<not> listening s1"
      "ticks s1 = ticks s"
    using quiet_step [OF Cons.prems(1,2)] by blast
  have "\<forall>v now freq. VolumeChange v now freq \<notin> set es"
    using Cons.prems(3) by auto
  then obtain s' where "run es s1 = Inr s'" "pending s' = {}" "ticks s' = ticks s1"
    using Cons.IH [OF s1(2,3)] by blast
  then show ?case using s1 by simp
qed

lemma app_teardown_stops_ticks:
  assumes "loop_inv s" "\<forall>v now freq. VolumeChange v now freq \<notin> set es"
  shows "\<exists>s1 s2. cleanup s = Inr s1 \<and> run es s1 = Inr s2 \<and> pending s2 = {}
                \<and> ticks s2 = ticks s"
proof -
  obtain s1 where s1: "cleanup s = Inr s1" using cleanup_no_fault by blast
  have p: "pending s1 = {}" using assms(1) s1 by (rule cleanup_pending)
  have l: "\<not> listening s1" and t: "ticks s1 = ticks s"
    using s1 by (auto simp: cleanup_result)
  obtain s2 where "run es s1 = Inr s2" "pending s2 = {}" "ticks s2 = ticks s1"
    using quiet_run [OF p l assms(2)] by blast
  then show ?thesis using s1 t by simp
qed

lemma app_reachable_inv:
  assumes "run es (effect now freq app_init) = Inr s"
  shows "loop_inv s"
proof -
  have "loop_inv (effect now freq app_init)"
    by (rule effect_inv) (simp add: app_init_def)
  then show ?thesis using assms by (rule run_inv)
qed

lemma no_volume_events:
  "list_all (\<lambda>e. \<not> is_VolumeChange e) es \<Longrightarrow> \<forall>v now freq. VolumeChange v now freq \<notin> set es"
  by (auto simp: list_all_iff)

text \<open>
  C6. Take any state reached from a run of the effect that started with no frame pending.
  After the cleanup no frame is pending, and whatever follows (frames under any handle,
  pointer events, further cleanups) executes no tick: the tick counter stays where the
  cleanup left it. The pending frame is cancelled because \<open>animate\<close> keeps the handle of the
  frame it schedules in \<open>rafId\<close>. A second cleanup does not fault: the removal of the canvas
  is the only call that can throw, and it stands in a \<open>try\<close>.
\<close>

theorem teardown_stops_ticks:
  assumes "pending s0 = {}"
    and "run es0 (effect now freq s0) = Inr s"
    and "list_all (\<lambda>e. \<not> is_VolumeChange e) es"
  shows "\<exists>s1 s2 s3. cleanup s = Inr s1 \<and> pending s1 = {} \<and> ticks s1 = ticks s
           \<and> run es s1 = Inr s2 \<and> pending s2 = {} \<and> ticks s2 = ticks s
           \<and> cleanup s1 = Inr s3 \<and> pending s3 = {} \<and> ticks s3 = ticks s"
proof -
  have "loop_inv (effect now freq s0)"
    using assms(1) by (rule effect_inv)
  then have inv: "loop_inv s"
    using assms(2) by (rule run_inv)
  have quiet: "\<forall>v now freq. VolumeChange v now freq \<notin> set es"
    using assms(3) by (rule no_volume_events)
  obtain s1 s2 where s1: "cleanup s = Inr s1" and s2: "run es s1 = Inr s2"
    and p2: "pending s2 = {}" and t2: "ticks s2 = ticks s"
    using app_teardown_stops_ticks [OF inv quiet] by blast
  have p1: "pending s1 = {}"
    using inv s1 by (rule cleanup_pending)
  have t1: "ticks s1 = ticks s"
    using s1 by (auto simp: cleanup_result)
  obtain s3 where s3: "cleanup s1 = Inr s3" using cleanup_no_fault by blast
  have "pending s3 = {}" and "ticks s3 = ticks s"
    using s3 p1 t1 by (auto simp: cleanup_result)
  then show ?thesis
    using s1 s2 p1 t1 p2 t2 s3 by blast
qed

theorem teardown_stops_ticks_witness:
  "pending app_init = {}
   \<and> run [Frame 1 5 []] (effect 0 [] app_init) = Inr app_running
   \<and> list_all (\<lambda>e. \<not> is_VolumeChange e)
        [Frame 2 6 [], Cleanup, PointerMove (Vec2 1 1), Frame 3 7 []]
   \<and> ticks app_running = 2
   \<and> ticks (projr (run [Frame 2 6 [], Cleanup, PointerMove (Vec2 1 1), Frame 3 7 []]
                     (projr (cleanup app_running)))) = 2
   \<and> \<not> isl (cleanup (projr (cleanup app_running)))"
proof -
  have h1: "pending app_init = {}" by (simp add: app_init_def)
  have h2: "run [Frame 1 5 []] (effect 0 [] app_init) = Inr app_running"
    by (simp add: app_running_def)
  have h3: "list_all (\<lambda>e. \<not> is_VolumeChange e)
              [Frame 2 6 [], Cleanup, PointerMove (Vec2 1 1), Frame 3 7 []]"
    by simp
  have t: "ticks app_running = 2" by (simp add: app_running_value)
  show ?thesis
    using teardown_stops_ticks [OF h1 h2 h3] h1 h2 h3 t by auto
qed

end
